theory Spec2Isabelle
  imports
    Complex_Main
    "HOL-Library.Word"
    "HOL-Library.Log_Nat"
    "HOL-Library.Sublist"
    "HOL-Library.List_Lexorder"
    "HOL-Library.Char_ord"
begin

section \<open>Data model\<close>

text \<open>
  \<^verbatim>\<open>domain.Product\<close> (internal/core/domain/product.go). A \<^verbatim>\<open>float64\<close> price
  is modelled by the rational number it denotes (every finite float is one; NaN and the
  infinities are left out), a \<^verbatim>\<open>time.Time\<close> by the instant it denotes, counted in
  nanoseconds, so that \<^verbatim>\<open>After\<close> is \<open>>\<close> and \<^verbatim>\<open>Before\<close> is \<open><\<close>.
  Go compares strings byte by byte; \<open>string\<close> with the lexicographic order of the
  library theory \<open>List_Lexorder\<close> over the order of \<open>Char_ord\<close> does the same.
\<close>

record Product =
  ID :: string
  Name :: string
  Description :: string
  Price :: rat
  CreatedAt :: int
  UpdatedAt :: int

datatype error =
  ErrInvalidProduct
  | ErrNotFound
  | NameRequired
  | PriceNegative
  | StoreFailure
  | BindingFailure
  | SliceOutOfRange

section \<open>In-memory sort of the repository\<close>

text \<open>
  \<^verbatim>\<open>sortProducts\<close> picks its comparison by a \<^verbatim>\<open>switch\<close> on \<^verbatim>\<open>sortBy\<close>
  with the cases \<^verbatim>\<open>"name"\<close>, \<^verbatim>\<open>"price"\<close> and \<^verbatim>\<open>"created_at"\<close>, the last one
  falling through to \<^verbatim>\<open>default\<close>. The closure \<^verbatim>\<open>compare(i, j)\<close> reads
  \<^verbatim>\<open>sorted[i]\<close> and \<^verbatim>\<open>sorted[j]\<close> when it is called; here it takes the two elements.
\<close>

definition compare :: "string \<Rightarrow> string \<Rightarrow> Product \<Rightarrow> Product \<Rightarrow> bool" where
  "compare sortBy sortOrder a b =
     (if sortBy = ''name'' then
        (if sortOrder = ''desc'' then Name a > Name b else Name a < Name b)
      else if sortBy = ''price'' then
        (if sortOrder = ''desc'' then Price a > Price b else Price a < Price b)
      else
        (if sortOrder = ''desc'' then CreatedAt a > CreatedAt b
         else CreatedAt a < CreatedAt b))"

text \<open>
  The inner loop
  \<^verbatim>\<open>for j >= 0 && compare(j, j+1) { sorted[j+1] = sorted[j]; j-- }\<close>.
  The counter of the model is \<open>j + 1\<close>, a natural number: \<open>0\<close> stands for \<open>j = -1\<close>.
  The result is the array (\<open>srt\<close> for the source's \<^verbatim>\<open>sorted\<close>) and the
  final \<open>j + 1\<close>.
\<close>

fun shift :: "('a \<Rightarrow> 'a \<Rightarrow> bool) \<Rightarrow> 'a list \<Rightarrow> nat \<Rightarrow> 'a list \<times> nat" where
  "shift cmp srt 0 = (srt, 0)"
| "shift cmp srt (Suc j) =
     (if cmp (srt ! j) (srt ! Suc j)
      then shift cmp (srt[Suc j := srt ! j]) j
      else (srt, Suc j))"

text \<open>
  One round of the outer loop:
  \<^verbatim>\<open>key := sorted[i]; j := i - 1; <inner loop>; sorted[j+1] = key\<close>.
\<close>

definition insert_round :: "('a \<Rightarrow> 'a \<Rightarrow> bool) \<Rightarrow> nat \<Rightarrow> 'a list \<Rightarrow> 'a list" where
  "insert_round cmp i srt =
     (let key = srt ! i;
          r = shift cmp srt i
      in (fst r)[snd r := key])"

definition sortProducts :: "Product list \<Rightarrow> string \<Rightarrow> string \<Rightarrow> Product list" where
  "sortProducts products sortBy sortOrder =
     (if length products \<le> 1 then products
      else fold (insert_round (compare sortBy sortOrder)) [1..<length products] products)"

text \<open>
  The key that \<^const>\<open>compare\<close> reads for a sort field, as an equivalence on products,
  and the key that the field names.
\<close>

definition compared_key_eq :: "string \<Rightarrow> Product \<Rightarrow> Product \<Rightarrow> bool" where
  "compared_key_eq sortBy a b =
     (if sortBy = ''name'' then Name a = Name b
      else if sortBy = ''price'' then Price a = Price b
      else CreatedAt a = CreatedAt b)"

definition requested_key_eq :: "string \<Rightarrow> Product \<Rightarrow> Product \<Rightarrow> bool" where
  "requested_key_eq sortBy a b =
     (if sortBy = ''name'' then Name a = Name b
      else if sortBy = ''price'' then Price a = Price b
      else if sortBy = ''updated_at'' then UpdatedAt a = UpdatedAt b
      else CreatedAt a = CreatedAt b)"

text \<open>The order the requested field and direction ask for between neighbours.\<close>

definition in_requested_order :: "string \<Rightarrow> string \<Rightarrow> Product \<Rightarrow> Product \<Rightarrow> bool" where
  "in_requested_order sortBy sortOrder a b =
     (if sortBy = ''name'' then
        (if sortOrder = ''desc'' then Name a \<ge> Name b else Name a \<le> Name b)
      else if sortBy = ''price'' then
        (if sortOrder = ''desc'' then Price a \<ge> Price b else Price a \<le> Price b)
      else if sortBy = ''updated_at'' then
        (if sortOrder = ''desc'' then UpdatedAt a \<ge> UpdatedAt b
         else UpdatedAt a \<le> UpdatedAt b)
      else
        (if sortOrder = ''desc'' then CreatedAt a \<ge> CreatedAt b
         else CreatedAt a \<le> CreatedAt b))"

section \<open>The record store\<close>

text \<open>
  The record store is DynamoDB, an external service reached through the AWS client; the
  repository uses its \<^verbatim>\<open>PutItem\<close> and \<^verbatim>\<open>Scan\<close>. It is modelled as the spec
  describes the store capability (sections 4.2 and 6): a table of items in the order a scan
  visits them, a filter expression that is a conjunction of a substring condition on the name
  and inclusive bounds on the price, and a limit that bounds the items scanned, before the
  filter is applied. A scan of the model returns every item in one response (the tables are
  small). A store that cannot be reached fails every call. The field \<open>calls\<close> records the
  calls made on the client, in order.
\<close>

datatype condition = NameContains string | PriceGE rat | PriceLE rat

fun holds :: "condition \<Rightarrow> Product \<Rightarrow> bool" where
  "holds (NameContains s) p = sublist s (Name p)"
| "holds (PriceGE v) p = (v \<le> Price p)"
| "holds (PriceLE v) p = (Price p \<le> v)"

definition matches :: "condition list \<Rightarrow> Product \<Rightarrow> bool" where
  "matches cs p = list_all (\<lambda>c. holds c p) cs"

datatype StoreOp =
  OpPutItem Product
  | OpScan int "condition list"
  | OpScanCount "condition list"

record Store =
  table :: "Product list"
  reachable :: bool
  calls :: "StoreOp list"

fun put_item :: "Product \<Rightarrow> Product list \<Rightarrow> Product list" where
  "put_item p [] = [p]"
| "put_item p (q # qs) = (if ID q = ID p then p # qs else q # put_item p qs)"

definition PutItem :: "Store \<Rightarrow> Product \<Rightarrow> (error + unit) \<times> Store" where
  "PutItem st p =
     (let st1 = st\<lparr>calls := calls st @ [OpPutItem p]\<rparr>
      in if reachable st then (Inr (), st1\<lparr>table := put_item p (table st)\<rparr>)
         else (Inl StoreFailure, st1))"

text \<open>
  \<^verbatim>\<open>Scan\<close> with a \<^verbatim>\<open>Limit\<close>: the service refuses a limit below one; otherwise the
  first \<open>limit\<close> items are read and those that satisfy the filter are returned.
\<close>

definition Scan :: "Store \<Rightarrow> int \<Rightarrow> condition list \<Rightarrow> (error + Product list) \<times> Store" where
  "Scan st limit cs =
     (let st1 = st\<lparr>calls := calls st @ [OpScan limit cs]\<rparr>
      in if \<not> reachable st \<or> limit < 1 then (Inl StoreFailure, st1)
         else (Inr (filter (matches cs) (take (nat limit) (table st))), st1))"

text \<open>\<^verbatim>\<open>Scan\<close> with \<^verbatim>\<open>Select: COUNT\<close> and no limit: the number of matching items.\<close>

definition ScanCount :: "Store \<Rightarrow> condition list \<Rightarrow> (error + int) \<times> Store" where
  "ScanCount st cs =
     (let st1 = st\<lparr>calls := calls st @ [OpScanCount cs]\<rparr>
      in if \<not> reachable st then (Inl StoreFailure, st1)
         else (Inr (int (length (filter (matches cs) (table st)))), st1))"

section \<open>The repository: filtered listing\<close>

text \<open>\<^verbatim>\<open>ports.ProductFilters\<close> and \<^verbatim>\<open>ports.ProductListResult\<close>.\<close>

record ProductFilters =
  fName :: string
  fMinPrice :: rat
  fMaxPrice :: rat
  fSortBy :: string
  fSortOrder :: string
  fOffset :: int
  fLimit :: int

record ProductListResult =
  Products :: "Product list"
  TotalItems :: int

text \<open>
  Go's conversions \<^verbatim>\<open>int32(x)\<close> and the arithmetic of the 64-bit \<^verbatim>\<open>int\<close> wrap around.
\<close>

definition int32 :: "int \<Rightarrow> int" where
  "int32 x = sint (word_of_int x :: 32 word)"

definition int64 :: "int \<Rightarrow> int" where
  "int64 x = sint (word_of_int x :: 64 word)"

text \<open>
  The number that \<^verbatim>\<open>fmt.Sprintf("%.2f", x)\<close> prints: \<open>x\<close> rounded to two decimals,
  a tie going to the even neighbour.
\<close>

definition round_half_even :: "rat \<Rightarrow> int" where
  "round_half_even x =
     (let n = \<lfloor>x\<rfloor>; r = x - of_int n
      in if r < 1 / 2 then n
         else if r > 1 / 2 then n + 1
         else if even n then n else n + 1)"

definition Sprintf_2f :: "rat \<Rightarrow> rat" where
  "Sprintf_2f x = of_int (round_half_even (x * 100)) / 100"

text \<open>The filter expression \<^verbatim>\<open>ListWithFilters\<close> builds for its scan.\<close>

definition scan_conditions :: "ProductFilters \<Rightarrow> condition list" where
  "scan_conditions filters =
     (if fName filters \<noteq> [] \<or> fMinPrice filters > 0 \<or> fMaxPrice filters > 0 then
        (if fName filters \<noteq> [] then [NameContains (fName filters)] else [])
        @ (if fMinPrice filters > 0 then [PriceGE (Sprintf_2f (fMinPrice filters))] else [])
        @ (if fMaxPrice filters > 0 then [PriceLE (Sprintf_2f (fMaxPrice filters))] else [])
      else [])"

text \<open>
  \<^verbatim>\<open>getTotalCount\<close> builds its filter expression with code of its own; an empty list
  of conditions sets no filter expression.
\<close>

definition count_conditions :: "ProductFilters \<Rightarrow> condition list" where
  "count_conditions filters =
     (if fName filters \<noteq> [] \<or> fMinPrice filters > 0 \<or> fMaxPrice filters > 0 then
        (let conditions =
           (if fName filters \<noteq> [] then [NameContains (fName filters)] else [])
           @ (if fMinPrice filters > 0 then [PriceGE (Sprintf_2f (fMinPrice filters))] else [])
           @ (if fMaxPrice filters > 0 then [PriceLE (Sprintf_2f (fMaxPrice filters))] else [])
         in if length conditions > 0 then conditions else [])
      else [])"

definition getTotalCount :: "Store \<Rightarrow> ProductFilters \<Rightarrow> (error + int) \<times> Store" where
  "getTotalCount st filters = ScanCount st (count_conditions filters)"

text \<open>
  Slice expressions panic out of range: \<^verbatim>\<open>s[lo:]\<close> needs \<open>0 \<le> lo \<le> len(s)\<close>.
  \<^verbatim>\<open>s[:hi]\<close> needs \<open>0 \<le> hi\<close> and \<open>hi\<close> within the capacity; the code takes it
  only under \<open>hi < len(s)\<close>, where the length decides as well.
\<close>

definition slice_from :: "'a list \<Rightarrow> int \<Rightarrow> error + 'a list" where
  "slice_from s lo =
     (if 0 \<le> lo \<and> lo \<le> int (length s) then Inr (drop (nat lo) s) else Inl SliceOutOfRange)"

definition slice_to :: "'a list \<Rightarrow> int \<Rightarrow> error + 'a list" where
  "slice_to s hi =
     (if 0 \<le> hi \<and> hi \<le> int (length s) then Inr (take (nat hi) s) else Inl SliceOutOfRange)"

text \<open>
  The pagination of \<^verbatim>\<open>ListWithFilters\<close>:
  \<^verbatim>\<open>if Offset < len(products) { products = products[Offset:] } else { products = [] }\<close>,
  then \<^verbatim>\<open>if Limit < len(products) { products = products[:Limit] }\<close>.
\<close>

definition paginate :: "'a list \<Rightarrow> int \<Rightarrow> int \<Rightarrow> error + 'a list" where
  "paginate products offset limit =
     (case (if offset < int (length products) then slice_from products offset else Inr []) of
        Inl e \<Rightarrow> Inl e
      | Inr rest \<Rightarrow> if limit < int (length rest) then slice_to rest limit else Inr rest)"

text \<open>
  \<^verbatim>\<open>DynamoDBRepository.ListWithFilters\<close>. The items of the table are products, so
  unmarshalling them succeeds; the errors left are those of the two scans and the panic of a
  slice expression.
\<close>

definition ListWithFilters :: "Store \<Rightarrow> ProductFilters \<Rightarrow> (error + ProductListResult) \<times> Store" where
  "ListWithFilters st filters =
     (case Scan st (int32 (fLimit filters)) (scan_conditions filters) of
        (Inl e, st1) \<Rightarrow> (Inl e, st1)
      | (Inr products, st1) \<Rightarrow>
          (case getTotalCount st1 filters of
             (Inl e, st2) \<Rightarrow> (Inl e, st2)
           | (Inr totalItems, st2) \<Rightarrow>
               (case paginate (sortProducts products (fSortBy filters) (fSortOrder filters))
                       (fOffset filters) (fLimit filters) of
                  Inl e \<Rightarrow> (Inl e, st2)
                | Inr page \<Rightarrow> (Inr \<lparr>Products = page, TotalItems = totalItems\<rparr>, st2))))"

text \<open>
  What the spec asks of the pipeline (section 4.2): the page is cut out of the whole
  filtered table, sorted.
\<close>

definition full_result_page :: "Store \<Rightarrow> ProductFilters \<Rightarrow> Product list" where
  "full_result_page st filters =
     take (nat (fLimit filters)) (drop (nat (fOffset filters))
       (sortProducts (filter (matches (scan_conditions filters)) (table st))
          (fSortBy filters) (fSortOrder filters)))"






section \<open>The domain factory and the service\<close>

text \<open>
  \<^verbatim>\<open>domain.NewProduct\<close>; the clock reading \<^verbatim>\<open>time.Now().UTC()\<close> and the fresh
  identifier \<^verbatim>\<open>uuid.New().String()\<close> are inputs of the model.
\<close>

definition NewProduct :: "string \<Rightarrow> string \<Rightarrow> rat \<Rightarrow> int \<Rightarrow> string \<Rightarrow> error + Product" where
  "NewProduct name description price now uid =
     (if name = [] then Inl NameRequired
      else if price < 0 then Inl PriceNegative
      else Inr \<lparr>ID = uid, Name = name, Description = description, Price = price,
                CreatedAt = now, UpdatedAt = now\<rparr>)"

text \<open>\<^verbatim>\<open>DynamoDBRepository.Save\<close>: a product always marshals; then \<^verbatim>\<open>PutItem\<close>.\<close>

definition Save :: "Store \<Rightarrow> Product \<Rightarrow> (error + unit) \<times> Store" where
  "Save st product = PutItem st product"

text \<open>\<^verbatim>\<open>service.Create\<close> and \<^verbatim>\<open>service.ListWithFilters\<close> (the logger is left out).\<close>

definition service_Create ::
  "Store \<Rightarrow> string \<Rightarrow> string \<Rightarrow> rat \<Rightarrow> int \<Rightarrow> string \<Rightarrow> (error + Product) \<times> Store" where
  "service_Create st name description price now uid =
     (case NewProduct name description price now uid of
        Inl e \<Rightarrow> (Inl ErrInvalidProduct, st)
      | Inr product \<Rightarrow>
          (case Save st product of
             (Inl e, st1) \<Rightarrow> (Inl e, st1)
           | (Inr u, st1) \<Rightarrow> (Inr product, st1)))"

definition service_ListWithFilters ::
  "Store \<Rightarrow> ProductFilters \<Rightarrow> (error + ProductListResult) \<times> Store" where
  "service_ListWithFilters st filters = ListWithFilters st filters"

text \<open>
  The status \<^verbatim>\<open>ProductHandler.Create\<close> answers a failed \<^verbatim>\<open>service.Create\<close> with.
\<close>

definition Create_error_status :: "error \<Rightarrow> nat" where
  "Create_error_status err = (if err = ErrInvalidProduct then 400 else 500)"

section \<open>The list request and its handler\<close>

text \<open>
  \<^verbatim>\<open>dto.ListProductsRequest\<close>, with the methods \<^verbatim>\<open>SetDefaults\<close>,
  \<^verbatim>\<open>GetOffset\<close> and \<^verbatim>\<open>HasFilters\<close>.
\<close>

record ListProductsRequest =
  rPage :: int
  rLimit :: int
  rName :: string
  rMinPrice :: rat
  rMaxPrice :: rat
  rSortBy :: string
  rSortOrder :: string
  rFields :: string

definition SetDefaults :: "ListProductsRequest \<Rightarrow> ListProductsRequest" where
  "SetDefaults r =
     (let r1 = (if rPage r \<le> 0 then r\<lparr>rPage := 1\<rparr> else r);
          r2 = (if rLimit r1 \<le> 0 then r1\<lparr>rLimit := 20\<rparr> else r1);
          r3 = (if rSortBy r2 = [] then r2\<lparr>rSortBy := ''created_at''\<rparr> else r2)
      in if rSortOrder r3 = [] then r3\<lparr>rSortOrder := ''desc''\<rparr> else r3)"

definition GetOffset :: "ListProductsRequest \<Rightarrow> int" where
  "GetOffset r = int64 (int64 (rPage r - 1) * rLimit r)"

definition HasFilters :: "ListProductsRequest \<Rightarrow> bool" where
  "HasFilters r = (rName r \<noteq> [] \<or> rMinPrice r > 0 \<or> rMaxPrice r > 0)"

text \<open>
  The raw query string. A numeric parameter is absent (or empty), or its text does not parse
  as a number, or it parses to a value; a text parameter that is absent is the empty string.
\<close>

datatype 'a param = Absent | Malformed | Given 'a

record Query =
  qPage :: "int param"
  qLimit :: "int param"
  qName :: string
  qMinPrice :: "rat param"
  qMaxPrice :: "rat param"
  qSortBy :: string
  qSortOrder :: string
  qFields :: string

text \<open>
  \<^verbatim>\<open>c.ShouldBindQuery(&req)\<close> is the web framework's: it fills the fields named by the
  \<^verbatim>\<open>form\<close> tags, an absent parameter leaving the zero value and an unparsable number
  being an error, and then checks the \<^verbatim>\<open>binding\<close> tags of the structure:
  \<^verbatim>\<open>min=1\<close> on \<^verbatim>\<open>Page\<close>, \<^verbatim>\<open>min=1,max=100\<close> on \<^verbatim>\<open>Limit\<close>, \<^verbatim>\<open>min=0\<close> on both
  prices, \<^verbatim>\<open>omitempty,oneof=name price created_at updated_at\<close> on \<^verbatim>\<open>SortBy\<close> and
  \<^verbatim>\<open>omitempty,oneof=asc desc\<close> on \<^verbatim>\<open>SortOrder\<close>. Only a tag that starts with
  \<^verbatim>\<open>omitempty\<close> skips the zero value.
\<close>

definition form_value :: "'a \<Rightarrow> 'a param \<Rightarrow> error + 'a" where
  "form_value zero v =
     (case v of Absent \<Rightarrow> Inr zero | Malformed \<Rightarrow> Inl BindingFailure | Given x \<Rightarrow> Inr x)"

definition mapForm :: "Query \<Rightarrow> error + ListProductsRequest" where
  "mapForm q =
     (case form_value 0 (qPage q) of Inl e \<Rightarrow> Inl e | Inr page \<Rightarrow>
      case form_value 0 (qLimit q) of Inl e \<Rightarrow> Inl e | Inr limit \<Rightarrow>
      case form_value 0 (qMinPrice q) of Inl e \<Rightarrow> Inl e | Inr minPrice \<Rightarrow>
      case form_value 0 (qMaxPrice q) of Inl e \<Rightarrow> Inl e | Inr maxPrice \<Rightarrow>
        Inr \<lparr>rPage = page, rLimit = limit, rName = qName q,
             rMinPrice = minPrice, rMaxPrice = maxPrice,
             rSortBy = qSortBy q, rSortOrder = qSortOrder q, rFields = qFields q\<rparr>)"

definition binding_tags_hold :: "ListProductsRequest \<Rightarrow> bool" where
  "binding_tags_hold r =
     (1 \<le> rPage r
      \<and> 1 \<le> rLimit r \<and> rLimit r \<le> 100
      \<and> 0 \<le> rMinPrice r
      \<and> 0 \<le> rMaxPrice r
      \<and> (rSortBy r = [] \<or> rSortBy r \<in> set [''name'', ''price'', ''created_at'', ''updated_at''])
      \<and> (rSortOrder r = [] \<or> rSortOrder r \<in> set [''asc'', ''desc'']))"

definition ShouldBindQuery :: "Query \<Rightarrow> error + ListProductsRequest" where
  "ShouldBindQuery q =
     (case mapForm q of
        Inl e \<Rightarrow> Inl e
      | Inr r \<Rightarrow> if binding_tags_hold r then Inr r else Inl BindingFailure)"

text \<open>
  \<^verbatim>\<open>dto.PaginationInfo\<close>, \<^verbatim>\<open>dto.FilterInfo\<close>, \<^verbatim>\<open>dto.ProductResponse\<close> and
  \<^verbatim>\<open>dto.ListProductsResponse\<close>.
\<close>

record PaginationInfo =
  CurrentPage :: int
  PerPage :: int
  TotalPages :: int
  TotalItemsInfo :: int
  HasNext :: bool
  HasPrev :: bool

record FilterInfo =
  iName :: string
  iMinPrice :: rat
  iMaxPrice :: rat

record ProductResponse =
  pID :: string
  pName :: string
  pDescription :: string
  pPrice :: rat
  pCreatedAt :: int
  pUpdatedAt :: int

record ListProductsResponse =
  ProductsOut :: "ProductResponse list"
  Pagination :: PaginationInfo
  FiltersApplied :: FilterInfo

definition NewProductResponse :: "Product \<Rightarrow> ProductResponse" where
  "NewProductResponse product =
     \<lparr>pID = ID product, pName = Name product, pDescription = Description product,
      pPrice = Price product, pCreatedAt = CreatedAt product, pUpdatedAt = UpdatedAt product\<rparr>"

text \<open>
  The members of the object that \<^verbatim>\<open>filters_applied\<close> is written as: each field of
  \<^verbatim>\<open>FilterInfo\<close> carries \<^verbatim>\<open>omitempty\<close>, which leaves out an empty string and a zero.
\<close>

datatype json = JString string | JNumber rat

definition FilterInfo_json :: "FilterInfo \<Rightarrow> (string \<times> json) list" where
  "FilterInfo_json i =
     (if iName i \<noteq> [] then [(''name'', JString (iName i))] else [])
     @ (if iMinPrice i \<noteq> 0 then [(''min_price'', JNumber (iMinPrice i))] else [])
     @ (if iMaxPrice i \<noteq> 0 then [(''max_price'', JNumber (iMaxPrice i))] else [])"

text \<open>
  Arithmetic of \<^verbatim>\<open>float64\<close>, on the rationals that the floats denote, for values in
  the normal range: a result is the exact one rounded to a significand of 53 bits, to the
  nearest such number, a tie going to the even significand. \<open>float64_exponent x\<close> is the
  \<open>e\<close> with \<open>2\<^sup>e \<le> x < 2\<^sup>e\<^sup>+\<^sup>1\<close>, for a positive \<open>x\<close>.
\<close>

definition float64_exponent :: "rat \<Rightarrow> int" where
  "float64_exponent x =
     (case quotient_of x of
        (a, b) \<Rightarrow> (let d = bitlen a - bitlen b in if 2 powi d \<le> x then d else d - 1))"

definition float64_round :: "rat \<Rightarrow> rat" where
  "float64_round x =
     (if x = 0 then 0
      else (let u = 2 powi (float64_exponent \<bar>x\<bar> - 52)
            in of_int (round_half_even (x / u)) * u))"

definition float64_of_int :: "int \<Rightarrow> rat" where
  "float64_of_int n = float64_round (of_int n)"

definition float64_div :: "rat \<Rightarrow> rat \<Rightarrow> rat" where
  "float64_div x y = float64_round (x / y)"

text \<open>
  The pagination block of \<^verbatim>\<open>ProductHandler.List\<close>. \<^verbatim>\<open>TotalPages\<close> is
  \<^verbatim>\<open>int(math.Ceil(float64(TotalItems) / float64(Limit)))\<close>; the handler reaches it
  with a \<^verbatim>\<open>Limit\<close> of at least one. The conversion to \<^verbatim>\<open>int\<close> of a float that
  is out of the range of 64 bits is taken to wrap around.
\<close>

definition pagination_info :: "ListProductsRequest \<Rightarrow> int \<Rightarrow> PaginationInfo" where
  "pagination_info req totalItems =
     \<lparr>CurrentPage = rPage req,
      PerPage = rLimit req,
      TotalPages =
        int64 \<lceil>float64_div (float64_of_int totalItems) (float64_of_int (rLimit req))\<rceil>,
      TotalItemsInfo = totalItems,
      HasNext = (int64 (rPage req * rLimit req) < totalItems),
      HasPrev = (rPage req > 1)\<rparr>"

text \<open>The filters that \<^verbatim>\<open>ProductHandler.List\<close> builds for the service.\<close>

definition built_filters :: "ListProductsRequest \<Rightarrow> ProductFilters" where
  "built_filters req =
     \<lparr>fName = rName req, fMinPrice = rMinPrice req, fMaxPrice = rMaxPrice req,
      fSortBy = rSortBy req, fSortOrder = rSortOrder req, fOffset = GetOffset req,
      fLimit = rLimit req\<rparr>"

datatype Response =
  BadRequest string
  | InternalServerError
  | StatusOK ListProductsResponse

definition ProductHandler_List :: "Store \<Rightarrow> Query \<Rightarrow> Response \<times> Store" where
  "ProductHandler_List st q =
     (case ShouldBindQuery q of
        Inl e \<Rightarrow> (BadRequest ''invalid query parameters'', st)
      | Inr bound \<Rightarrow>
          (let req = SetDefaults bound in
           if rPage req > 1000 then (BadRequest ''page cannot exceed 1000'', st)
           else if rMinPrice req > 0 \<and> rMaxPrice req > 0 \<and> rMinPrice req > rMaxPrice req
           then (BadRequest ''min_price cannot be greater than max_price'', st)
           else
             (let filters = built_filters req
              in case service_ListWithFilters st filters of
                   (Inl e, st1) \<Rightarrow> (InternalServerError, st1)
                 | (Inr result, st1) \<Rightarrow>
                     (StatusOK
                        \<lparr>ProductsOut = map NewProductResponse (Products result),
                         Pagination = pagination_info req (TotalItems result),
                         FiltersApplied =
                           (if HasFilters req
                            then \<lparr>iName = rName req, iMinPrice = rMinPrice req,
                                  iMaxPrice = rMaxPrice req\<rparr>
                            else \<lparr>iName = [], iMinPrice = 0, iMaxPrice = 0\<rparr>)\<rparr>,
                      st1))))"

section \<open>Example data\<close>

text \<open>
  The two products of the spec's end-to-end scenario (A: price 10.99 created at T1,
  B: price 20.99 created at T2 > T1), a third one, and a store that holds the three.
\<close>

definition prodA :: Product where
  "prodA = \<lparr>ID = ''a'', Name = ''A'', Description = [], Price = 1099 / 100,
            CreatedAt = 1, UpdatedAt = 1\<rparr>"

definition prodB :: Product where
  "prodB = \<lparr>ID = ''b'', Name = ''B'', Description = [], Price = 2099 / 100,
            CreatedAt = 2, UpdatedAt = 2\<rparr>"

definition prodC :: Product where
  "prodC = \<lparr>ID = ''c'', Name = ''C'', Description = [], Price = 3099 / 100,
            CreatedAt = 3, UpdatedAt = 3\<rparr>"

definition shop :: Store where
  "shop = \<lparr>table = [prodA, prodB, prodC], reachable = True, calls = []\<rparr>"

text \<open>Two products created together and updated at different times.\<close>

definition prodP :: Product where
  "prodP = \<lparr>ID = ''p'', Name = ''P'', Description = [], Price = 5,
            CreatedAt = 1, UpdatedAt = 5\<rparr>"

definition prodQ :: Product where
  "prodQ = \<lparr>ID = ''q'', Name = ''Q'', Description = [], Price = 5,
            CreatedAt = 1, UpdatedAt = 9\<rparr>"

text \<open>Two products created at different times and last updated together.\<close>

definition prodU :: Product where
  "prodU = \<lparr>ID = ''u'', Name = ''U'', Description = [], Price = 7,
            CreatedAt = 1, UpdatedAt = 5\<rparr>"

definition prodV :: Product where
  "prodV = \<lparr>ID = ''v'', Name = ''V'', Description = [], Price = 7,
            CreatedAt = 2, UpdatedAt = 5\<rparr>"

text \<open>A query with every parameter absent, and the filters of a request for the first page.\<close>

definition no_params :: Query where
  "no_params = \<lparr>qPage = Absent, qLimit = Absent, qName = [], qMinPrice = Absent,
                qMaxPrice = Absent, qSortBy = [], qSortOrder = [], qFields = []\<rparr>"

definition first_page :: ProductFilters where
  "first_page = \<lparr>fName = [], fMinPrice = 0, fMaxPrice = 0, fSortBy = ''created_at'',
                 fSortOrder = ''desc'', fOffset = 0, fLimit = 20\<rparr>"

text \<open>
  A request for the second page of two, sorted by price: no name or price filter, a sort
  other than the default.
\<close>

definition second_page_by_price :: ProductFilters where
  "second_page_by_price = \<lparr>fName = [], fMinPrice = 0, fMaxPrice = 0, fSortBy = ''price'',
      fSortOrder = ''asc'', fOffset = 2, fLimit = 2\<rparr>"

text \<open>The spec's request for page 50 of 20 items each.\<close>

definition page_fifty :: ProductFilters where
  "page_fifty = \<lparr>fName = [], fMinPrice = 0, fMaxPrice = 0, fSortBy = ''created_at'',
      fSortOrder = ''desc'', fOffset = 980, fLimit = 20\<rparr>"

text \<open>Requests that the handler rejects.\<close>

definition page_1001 :: Query where
  "page_1001 = \<lparr>qPage = Given 1001, qLimit = Given 20, qName = [],
      qMinPrice = Absent, qMaxPrice = Absent, qSortBy = [], qSortOrder = [], qFields = []\<rparr>"

definition inverted_range :: Query where
  "inverted_range = \<lparr>qPage = Given 1, qLimit = Given 20, qName = [],
      qMinPrice = Given 100, qMaxPrice = Given 50, qSortBy = [], qSortOrder = [], qFields = []\<rparr>"

definition page_1001_inverted_range :: Query where
  "page_1001_inverted_range = \<lparr>qPage = Given 1001, qLimit = Given 20, qName = [],
      qMinPrice = Given 100, qMaxPrice = Given 50, qSortBy = [], qSortOrder = [], qFields = []\<rparr>"

definition bogus_sort :: Query where
  "bogus_sort = \<lparr>qPage = Given 1, qLimit = Given 20, qName = [],
      qMinPrice = Absent, qMaxPrice = Absent, qSortBy = ''bogus'', qSortOrder = [], qFields = []\<rparr>"

definition unparsable_page :: Query where
  "unparsable_page = \<lparr>qPage = Malformed, qLimit = Given 20, qName = [],
      qMinPrice = Absent, qMaxPrice = Absent, qSortBy = [], qSortOrder = [], qFields = []\<rparr>"

text \<open>
  The requests of the spec's list of rejections, as written there: \<^verbatim>\<open>page=1001\<close>
  alone, and \<^verbatim>\<open>min_price=100&max_price=50\<close> alone.
\<close>

definition only_page_1001 :: Query where
  "only_page_1001 = \<lparr>qPage = Given 1001, qLimit = Absent, qName = [],
      qMinPrice = Absent, qMaxPrice = Absent, qSortBy = [], qSortOrder = [], qFields = []\<rparr>"

definition only_inverted_range :: Query where
  "only_inverted_range = \<lparr>qPage = Absent, qLimit = Absent, qName = [],
      qMinPrice = Given 100, qMaxPrice = Given 50, qSortBy = [], qSortOrder = [], qFields = []\<rparr>"

text \<open>A request with price bounds of zero.\<close>

definition zero_prices :: Query where
  "zero_prices = \<lparr>qPage = Given 1, qLimit = Given 20, qName = [],
      qMinPrice = Given 0, qMaxPrice = Given 0, qSortBy = [], qSortOrder = [], qFields = []\<rparr>"






text \<open>A request for the first page of two.\<close>

definition first_page_of_two :: Query where
  "first_page_of_two = \<lparr>qPage = Given 1, qLimit = Given 2, qName = [],
      qMinPrice = Absent, qMaxPrice = Absent, qSortBy = [], qSortOrder = [], qFields = []\<rparr>"

section \<open>Properties of the sort\<close>

lemma shift_length: "length (fst (shift cmp xs n)) = length xs"
  by (induction n arbitrary: xs) simp_all

lemma insert_round_length: "length (insert_round cmp i xs) = length xs"
  by (simp add: insert_round_def Let_def shift_length)

lemma fold_insert_round_length:
  "length (fold (insert_round cmp) js xs) = length xs"
  by (induction js arbitrary: xs) (simp_all add: insert_round_length)

lemma sortProducts_length: "length (sortProducts ps sortBy sortOrder) = length ps"
  by (simp add: sortProducts_def fold_insert_round_length)

text \<open>
  Exchanging two neighbours that do not both satisfy \<open>P\<close> leaves the sublist of the
  elements that satisfy \<open>P\<close> as it was.
\<close>

lemma filter_swap_adjacent:
  "Suc j < length xs \<Longrightarrow> \<not> (P a \<and> P b) \<Longrightarrow>
   filter P (xs[j := a, Suc j := b]) = filter P (xs[j := b, Suc j := a])"
proof (induction xs arbitrary: j)
  case Nil
  then show ?case by simp
next
  case (Cons x xs)
  show ?case
  proof (cases j)
    case 0
    with Cons.prems obtain y ys where "xs = y # ys" by (cases xs) auto
    with 0 Cons.prems show ?thesis by auto
  next
    case (Suc k)
    with Cons.prems have "Suc k < length xs" by simp
    from Cons.IH[OF this Cons.prems(2)] Suc show ?thesis by simp
  qed
qed

text \<open>
  The inner loop moves the key only past elements that the comparison puts strictly before
  it: each element shifted is linked to the key by a chain of comparisons that held.
\<close>

lemma shift_filter:
  assumes tr: "\<And>a b c. cmp a b \<Longrightarrow> cmp b c \<Longrightarrow> cmp a c"
      and ex: "\<And>a b. cmp a b \<Longrightarrow> \<not> (P a \<and> P b)"
  shows "n < length xs \<Longrightarrow> xs ! n = key \<or> cmp (xs ! n) key \<Longrightarrow>
     filter P ((fst (shift cmp xs n))[snd (shift cmp xs n) := key]) = filter P (xs[n := key])"
proof (induction n arbitrary: xs)
  case 0
  show ?case by simp
next
  case (Suc j)
  show ?case
  proof (cases "cmp (xs ! j) (xs ! Suc j)")
    case False
    then show ?thesis by simp
  next
    case True
    let ?xs' = "xs[Suc j := xs ! j]"
    from True Suc.prems(2) have ck: "cmp (xs ! j) key" using tr by auto
    have l: "j < length ?xs'" using Suc.prems(1) by simp
    have "filter P ((fst (shift cmp ?xs' j))[snd (shift cmp ?xs' j) := key])
        = filter P (?xs'[j := key])"
      by (rule Suc.IH[OF l]) (simp add: ck)
    also have "?xs'[j := key] = xs[j := key, Suc j := xs ! j]"
      by (simp add: list_update_swap)
    also have "filter P \<dots> = filter P (xs[j := xs ! j, Suc j := key])"
      by (rule filter_swap_adjacent) (use Suc.prems(1) ex[OF ck] in auto)
    also have "xs[j := xs ! j, Suc j := key] = xs[Suc j := key]" by simp
    finally show ?thesis using True by simp
  qed
qed

lemma insert_round_filter:
  assumes tr: "\<And>a b c. cmp a b \<Longrightarrow> cmp b c \<Longrightarrow> cmp a c"
      and ex: "\<And>a b. cmp a b \<Longrightarrow> \<not> (P a \<and> P b)"
      and i: "i < length xs"
  shows "filter P (insert_round cmp i xs) = filter P xs"
proof -
  have "filter P ((fst (shift cmp xs i))[snd (shift cmp xs i) := xs ! i])
      = filter P (xs[i := xs ! i])"
    by (rule shift_filter[OF tr ex i]) auto
  then show ?thesis by (simp add: insert_round_def Let_def)
qed

lemma fold_insert_round_filter:
  assumes tr: "\<And>a b c. cmp a b \<Longrightarrow> cmp b c \<Longrightarrow> cmp a c"
      and ex: "\<And>a b. cmp a b \<Longrightarrow> \<not> (P a \<and> P b)"
  shows "\<forall>i \<in> set js. i < length xs \<Longrightarrow>
     filter P (fold (insert_round cmp) js xs) = filter P xs"
proof (induction js arbitrary: xs)
  case Nil
  show ?case by simp
next
  case (Cons i js)
  have "filter P (fold (insert_round cmp) js (insert_round cmp i xs))
      = filter P (insert_round cmp i xs)"
    by (rule Cons.IH) (use Cons.prems in \<open>simp add: insert_round_length\<close>)
  also have "\<dots> = filter P xs"
  proof (rule insert_round_filter[OF tr ex])
    show "i < length xs" using Cons.prems by simp
  qed
  finally show ?case by simp
qed

lemma compare_trans: "compare sb so a b \<Longrightarrow> compare sb so b c \<Longrightarrow> compare sb so a c"
  by (auto simp: compare_def split: if_splits)

lemma compare_strict:
  "compare sb so a b \<Longrightarrow> \<not> (compared_key_eq sb a q \<and> compared_key_eq sb b q)"
  by (auto simp: compare_def compared_key_eq_def split: if_splits)

text \<open>
  With respect to the key that the comparison reads, the sort is stable: the products whose
  key equals that of any given product \<open>q\<close> come out in the order they went in.
\<close>

lemma sortProducts_stable_compared_key:
  "filter (\<lambda>p. compared_key_eq sb p q) (sortProducts ps sb so)
     = filter (\<lambda>p. compared_key_eq sb p q) ps"
proof (cases "length ps \<le> 1")
  case True
  then show ?thesis by (simp add: sortProducts_def)
next
  case False
  have "filter (\<lambda>p. compared_key_eq sb p q) (fold (insert_round (compare sb so)) [1..<length ps] ps)
      = filter (\<lambda>p. compared_key_eq sb p q) ps"
    by (rule fold_insert_round_filter[OF compare_trans compare_strict]) auto
  with False show ?thesis by (simp add: sortProducts_def)
qed

text \<open>The field \<^verbatim>\<open>updated_at\<close> has no case of its own in the \<^verbatim>\<open>switch\<close>.\<close>

lemma sortProducts_updated_at_is_created_at:
  "sortProducts ps ''updated_at'' so = sortProducts ps ''created_at'' so"
proof -
  have "compare ''updated_at'' so = compare ''created_at'' so"
    by (intro ext) (simp add: compare_def)
  then show ?thesis by (simp add: sortProducts_def)
qed

text \<open>
  Claim C2. The items come out ordered by the requested field in the requested direction.
  The code does not do that. Sorting the two products of the spec's scenario by price,
  ascending, puts the dearer one first: the inner loop shifts while
  \<^verbatim>\<open>compare(j, j+1)\<close> holds, that is while the two neighbours already are in the
  requested order; with a third product the result is ordered in neither direction. And sorting by \<^verbatim>\<open>updated_at\<close> compares the creation times: two
  products created together stay as they were given, whatever their update times.
\<close>

theorem sortProducts_not_in_requested_order:
  "sortProducts [prodA, prodB] ''price'' ''asc'' = [prodB, prodA]
   \<and> \<not> in_requested_order ''price'' ''asc'' prodB prodA
   \<and> sortProducts [prodA, prodB, prodC] ''price'' ''asc'' = [prodB, prodC, prodA]
   \<and> sortProducts [prodP, prodQ] ''updated_at'' ''desc'' = [prodP, prodQ]
   \<and> \<not> in_requested_order ''updated_at'' ''desc'' prodP prodQ
   \<and> sortProducts [prodQ, prodP] ''updated_at'' ''asc'' = [prodQ, prodP]
   \<and> \<not> in_requested_order ''updated_at'' ''asc'' prodQ prodP"
  by (simp add: sortProducts_def insert_round_def compare_def in_requested_order_def
      prodA_def prodB_def prodC_def prodP_def prodQ_def upt_rec)

text \<open>
  Claim C3. Two products whose sort keys are equal keep their relative order, for every
  supported field. For \<^verbatim>\<open>updated_at\<close> the code compares the creation times instead:
  two products last updated at the same instant and created at different ones are exchanged.
  (For the key the comparison does read, \<open>sortProducts_stable_compared_key\<close> holds.)
\<close>

theorem sortProducts_updated_at_reorders_equal_keys:
  "requested_key_eq ''updated_at'' prodU prodV
   \<and> sortProducts [prodU, prodV] ''updated_at'' ''asc'' = [prodV, prodU]"
  by (simp add: sortProducts_def insert_round_def compare_def requested_key_eq_def
      prodU_def prodV_def)

section \<open>Properties of rounding\<close>

text \<open>Rounding moves a number by at most half a unit, and leaves an integer alone.\<close>

lemma round_half_even_error: "\<bar>of_int (round_half_even y) - y\<bar> \<le> 1 / 2"
proof -
  have f: "of_int \<lfloor>y\<rfloor> \<le> y" "y < of_int \<lfloor>y\<rfloor> + 1" by linarith+
  consider "y - of_int \<lfloor>y\<rfloor> < 1 / 2" | "y - of_int \<lfloor>y\<rfloor> > 1 / 2"
    | "y - of_int \<lfloor>y\<rfloor> = 1 / 2" by linarith
  then show ?thesis
  proof cases
    case 1
    then have "round_half_even y = \<lfloor>y\<rfloor>" by (simp add: round_half_even_def Let_def)
    with 1 f show ?thesis by simp
  next
    case 2
    then have "round_half_even y = \<lfloor>y\<rfloor> + 1" by (simp add: round_half_even_def Let_def)
    with 2 f show ?thesis by simp
  next
    case 3
    then have "round_half_even y = \<lfloor>y\<rfloor> \<or> round_half_even y = \<lfloor>y\<rfloor> + 1"
      by (simp add: round_half_even_def Let_def)
    with 3 f show ?thesis by auto
  qed
qed

lemma round_half_even_of_int: "round_half_even (of_int n) = n"
  by (simp add: round_half_even_def)

section \<open>Properties of the filtered listing\<close>

lemma int32_small: "- (2 ^ 31) \<le> x \<Longrightarrow> x < 2 ^ 31 \<Longrightarrow> int32 x = x"
  unfolding int32_def by (simp add: Word.sint_sbintrunc' signed_take_bit_int_eq_self)

lemma int64_small: "- (2 ^ 63) \<le> x \<Longrightarrow> x < 2 ^ 63 \<Longrightarrow> int64 x = x"
  unfolding int64_def by (simp add: Word.sint_sbintrunc' signed_take_bit_int_eq_self)

text \<open>The count query filters as the scan does.\<close>

lemma count_conditions_eq: "count_conditions f = scan_conditions f"
  by (simp add: count_conditions_def scan_conditions_def Let_def)

lemma paginate_beyond:
  "0 \<le> limit \<Longrightarrow> int (length xs) \<le> offset \<Longrightarrow> paginate xs offset limit = Inr []"
  by (auto simp: paginate_def slice_from_def slice_to_def)

text \<open>
  The scan returns at most \<open>Limit\<close> items, so an offset of a page size or more is never
  below the length of what came back: every page after the first is empty.
\<close>

lemma ListWithFilters_later_pages_empty:
  assumes "reachable st" and "1 \<le> fLimit f" and "fLimit f \<le> 100"
    and "fLimit f \<le> fOffset f"
  shows "fst (ListWithFilters st f) =
           Inr \<lparr>Products = [],
                TotalItems = int (length (filter (matches (scan_conditions f)) (table st)))\<rparr>"
proof -
  let ?cs = "scan_conditions f"
  let ?scanned = "filter (matches ?cs) (take (nat (fLimit f)) (table st))"
  have lim: "int32 (fLimit f) = fLimit f"
    using assms(2,3) by (intro int32_small) auto
  have "length ?scanned \<le> length (take (nat (fLimit f)) (table st))"
    by (rule length_filter_le)
  also have "\<dots> \<le> nat (fLimit f)" by simp
  finally have "int (length (sortProducts ?scanned (fSortBy f) (fSortOrder f))) \<le> fOffset f"
    using assms(2,4) by (simp add: sortProducts_length)
  then have pg: "paginate (sortProducts ?scanned (fSortBy f) (fSortOrder f))
                   (fOffset f) (fLimit f) = Inr []"
    using assms(2) by (intro paginate_beyond) auto
  show ?thesis
    using assms(1,2) pg
    by (simp add: ListWithFilters_def Scan_def getTotalCount_def ScanCount_def lim
        count_conditions_eq Let_def)
qed

text \<open>
  Claim C1. With a filter or a sort other than the default, the page returned is the slice
  from \<open>offset\<close> to \<open>offset + pageSize\<close> of the whole filtered, sorted result; the scan is
  not capped at the page size. The code passes the page size as the \<^verbatim>\<open>Limit\<close> of the
  scan and applies the offset to what came back: of three products, the second page of two
  by price is empty, where the slice of the whole result holds one product.
\<close>

theorem ListWithFilters_scan_capped_by_page_size:
  "fst (ListWithFilters shop second_page_by_price) = Inr \<lparr>Products = [], TotalItems = 3\<rparr>
   \<and> length (full_result_page shop second_page_by_price) = 1
   \<and> calls (snd (ListWithFilters shop second_page_by_price)) = [OpScan 2 [], OpScanCount []]"
  by (simp add: ListWithFilters_def Scan_def getTotalCount_def ScanCount_def count_conditions_def
      scan_conditions_def second_page_by_price_def shop_def int32_def paginate_def
      slice_from_def slice_to_def sortProducts_def insert_round_def compare_def
      full_result_page_def matches_def prodA_def prodB_def prodC_def Let_def)










text \<open>
  Claim C10. The slicing is total and within bounds for every list and every offset and
  limit that are not negative: it returns a page, the page is the list without its first
  \<open>offset\<close> elements cut to \<open>limit\<close> elements, and it has at most \<open>limit\<close> elements.
\<close>

theorem paginate_total_in_bounds:
  "0 \<le> offset \<Longrightarrow> 0 \<le> limit \<Longrightarrow>
   (\<exists>page. paginate products offset limit = Inr page
      \<and> page = take (nat limit) (drop (nat offset) products)
      \<and> int (length page) \<le> limit)"
  by (auto simp: paginate_def slice_from_def slice_to_def)

theorem paginate_total_in_bounds_witness:
  "(0::int) \<le> 1 \<and> (0::int) \<le> 1
   \<and> (\<exists>page. paginate [prodA, prodB, prodC] 1 1 = Inr page
         \<and> page = take (nat 1) (drop (nat 1) [prodA, prodB, prodC])
         \<and> int (length page) \<le> 1)"
  using paginate_total_in_bounds[of 1 1 "[prodA, prodB, prodC]"] by simp

section \<open>Properties of product creation\<close>

lemma put_item_member: "p \<in> set (put_item p ps)"
  by (induction ps) auto

text \<open>
  Claim C8. With an empty name or a negative price, creation fails with the client fault
  \<open>ErrInvalidProduct\<close> and the store is as it was: \<^verbatim>\<open>Save\<close> is not called. With a
  name that is not empty and a price that is not negative, the factory returns a product whose
  creation and update times are equal, and the service saves and returns it (when the store
  can be reached).
\<close>

theorem service_Create_validates_before_write:
  "(name = [] \<or> price < 0 \<longrightarrow>
      service_Create st name description price now uid = (Inl ErrInvalidProduct, st)
      \<and> Create_error_status ErrInvalidProduct = 400)
   \<and> (name \<noteq> [] \<and> 0 \<le> price \<longrightarrow>
      (\<exists>product. NewProduct name description price now uid = Inr product
         \<and> CreatedAt product = UpdatedAt product
         \<and> (reachable st \<longrightarrow>
              fst (service_Create st name description price now uid) = Inr product
              \<and> product \<in> set (table (snd (service_Create st name description price now uid))))))"
  by (auto simp: service_Create_def NewProduct_def Save_def PutItem_def Create_error_status_def
      Let_def put_item_member)

theorem service_Create_validates_before_write_witness:
  "service_Create shop [] ''d'' 5 7 ''id1'' = (Inl ErrInvalidProduct, shop)
   \<and> service_Create shop ''n'' ''d'' (- 1) 7 ''id1'' = (Inl ErrInvalidProduct, shop)
   \<and> (\<exists>product. NewProduct ''n'' ''d'' 5 7 ''id1'' = Inr product
         \<and> CreatedAt product = UpdatedAt product
         \<and> fst (service_Create shop ''n'' ''d'' 5 7 ''id1'') = Inr product)"
  using service_Create_validates_before_write[of "[]" 5 shop "''d''" 7 "''id1''"]
    service_Create_validates_before_write[of "''n''" "- 1" shop "''d''" 7 "''id1''"]
    service_Create_validates_before_write[of "''n''" 5 shop "''d''" 7 "''id1''"]
  by (auto simp: shop_def)

section \<open>Properties of the list handler\<close>

lemmas handler_defs = ProductHandler_List_def ShouldBindQuery_def mapForm_def form_value_def
  binding_tags_hold_def SetDefaults_def

lemma ShouldBindQuery_tags: "ShouldBindQuery q = Inr bound \<Longrightarrow> binding_tags_hold bound"
  by (auto simp: ShouldBindQuery_def split: sum.splits if_splits)

lemma SetDefaults_bound:
  "binding_tags_hold r \<Longrightarrow>
     rPage (SetDefaults r) = rPage r \<and> rLimit (SetDefaults r) = rLimit r
     \<and> rMinPrice (SetDefaults r) = rMinPrice r \<and> rMaxPrice (SetDefaults r) = rMaxPrice r
     \<and> rName (SetDefaults r) = rName r"
  by (simp add: SetDefaults_def binding_tags_hold_def Let_def)

lemma bogus_sort_unbound:
  assumes "qSortBy q \<noteq> []" "qSortBy q \<notin> {''name'', ''price'', ''created_at'', ''updated_at''}"
  shows "\<exists>e. ShouldBindQuery q = Inl e"
  using assms
  by (auto simp: ShouldBindQuery_def mapForm_def binding_tags_hold_def split: sum.splits)

subsection \<open>Pagination metadata\<close>

text \<open>The exponent found is a lower bound: \<open>2\<^sup>e \<le> x\<close>.\<close>

lemma float64_exponent_le:
  assumes "0 < x"
  shows "2 powi (float64_exponent x) \<le> x"
proof -
  obtain a b where q: "quotient_of x = (a, b)" by (cases "quotient_of x")
  then have b: "0 < b" and x: "x = of_int a / of_int b"
    using quotient_of_denom_pos quotient_of_div by auto
  with assms have a: "0 < a" by (simp add: zero_less_divide_iff)
  let ?d = "bitlen a - bitlen b"
  show ?thesis
  proof (cases "2 powi ?d \<le> x")
    case True
    then show ?thesis by (simp add: float64_exponent_def q Let_def)
  next
    case False
    have la: "(2::rat) ^ nat (bitlen a - 1) \<le> of_int a"
      using bitlen_bounds[OF a] by (metis of_int_le_iff of_int_numeral of_int_power)
    have ub: "of_int b < (2::rat) ^ nat (bitlen b)"
      using bitlen_bounds[OF b] by (metis of_int_less_iff of_int_numeral of_int_power)
    have ba: "1 \<le> bitlen a" using a by (simp add: bitlen_alt_def)
    have bb: "0 \<le> bitlen b" by (rule bitlen_nonneg)
    have eq: "?d - 1 = (bitlen a - 1) - bitlen b" by simp
    have "(2::rat) powi (?d - 1) = 2 powi ((bitlen a - 1) - bitlen b)"
      by (simp only: eq)
    also have "\<dots> = 2 powi (bitlen a - 1) / 2 powi (bitlen b)"
      by (rule power_int_diff) simp
    also have "\<dots> = 2 ^ nat (bitlen a - 1) / 2 ^ nat (bitlen b)"
      using ba bb by (simp add: power_int_def)
    also have "\<dots> \<le> of_int a / 2 ^ nat (bitlen b)"
      using la by (simp add: divide_right_mono)
    also have "\<dots> \<le> of_int a / of_int b"
      using ub a b by (intro divide_left_mono) auto
    finally have "(2::rat) powi (?d - 1) \<le> x" using x by simp
    with False show ?thesis by (simp add: float64_exponent_def q Let_def)
  qed
qed

text \<open>And it is the greatest such: \<open>x < 2\<^sup>e\<^sup>+\<^sup>1\<close>.\<close>

lemma float64_exponent_gt:
  assumes "0 < x"
  shows "x < 2 powi (float64_exponent x + 1)"
proof -
  obtain a b where q: "quotient_of x = (a, b)" by (cases "quotient_of x")
  then have b: "0 < b" and x: "x = of_int a / of_int b"
    using quotient_of_denom_pos quotient_of_div by auto
  with assms have a: "0 < a" by (simp add: zero_less_divide_iff)
  let ?d = "bitlen a - bitlen b"
  show ?thesis
  proof (cases "2 powi ?d \<le> x")
    case False
    then show ?thesis by (simp add: float64_exponent_def q Let_def)
  next
    case True
    have ua: "of_int a < (2::rat) ^ nat (bitlen a)"
      using bitlen_bounds[OF a] by (metis of_int_less_iff of_int_numeral of_int_power)
    have lb: "(2::rat) ^ nat (bitlen b - 1) \<le> of_int b"
      using bitlen_bounds[OF b] by (metis of_int_le_iff of_int_numeral of_int_power)
    have ba: "0 \<le> bitlen a" by (rule bitlen_nonneg)
    have bb: "1 \<le> bitlen b" using b by (simp add: bitlen_alt_def)
    have "x = of_int a / of_int b" by (rule x)
    also have "\<dots> < 2 ^ nat (bitlen a) / of_int b"
      using ua b by (simp add: divide_strict_right_mono)
    also have "\<dots> \<le> 2 ^ nat (bitlen a) / 2 ^ nat (bitlen b - 1)"
      using lb b by (intro divide_left_mono) auto
    also have "\<dots> = 2 powi (bitlen a) / 2 powi (bitlen b - 1)"
      using ba bb by (simp add: power_int_def)
    also have "\<dots> = 2 powi (bitlen a - (bitlen b - 1))"
      by (rule power_int_diff[symmetric]) simp
    also have "bitlen a - (bitlen b - 1) = ?d + 1" by simp
    finally have "x < 2 powi (?d + 1)" .
    with True show ?thesis by (simp add: float64_exponent_def q Let_def)
  qed
qed

text \<open>
  Two values of the rounding: the float nearest to one tenth, and \<open>2\<^sup>5\<^sup>3 + 1\<close>,
  an integer that is no float.
\<close>

lemma float64_round_tenth: "float64_round (1 / 10) = 3602879701896397 / 36028797018963968"
  by code_simp

lemma float64_of_int_inexact: "float64_of_int 9007199254740993 = 9007199254740992"
  by code_simp

text \<open>The relative error of a rounding is at most \<open>2\<^sup>-\<^sup>5\<^sup>3\<close>.\<close>

lemma float64_round_error:
  assumes "0 < x"
  shows "\<bar>float64_round x - x\<bar> \<le> x / 2 ^ 53"
proof -
  let ?e = "float64_exponent x"
  let ?u = "(2::rat) powi (?e - 52)"
  have u: "0 < ?u" by simp
  have ue: "?u = 2 powi ?e / 2 ^ 52"
    by (simp add: power_int_diff)
  have "float64_round x = of_int (round_half_even (x / ?u)) * ?u"
    using assms by (simp add: float64_round_def Let_def)
  then have "float64_round x - x = (of_int (round_half_even (x / ?u)) - x / ?u) * ?u"
    using u by (simp add: algebra_simps)
  then have "\<bar>float64_round x - x\<bar> = \<bar>of_int (round_half_even (x / ?u)) - x / ?u\<bar> * ?u"
    using u by (simp add: abs_mult)
  also have "\<dots> \<le> 1 / 2 * ?u"
    using u round_half_even_error[of "x / ?u"] by (intro mult_right_mono) auto
  also have "\<dots> = 2 powi ?e / 2 ^ 53" by (simp add: ue)
  also have "\<dots> \<le> x / 2 ^ 53"
    using float64_exponent_le[OF assms] by (simp add: divide_right_mono)
  finally show ?thesis .
qed

text \<open>An integer below \<open>2\<^sup>5\<^sup>3\<close> is a float: the conversion is exact.\<close>

lemma float64_round_int:
  assumes "0 \<le> n" "n < 2 ^ 53"
  shows "float64_round (of_int n) = of_int n"
proof (cases "n = 0")
  case True
  then show ?thesis by (simp add: float64_round_def)
next
  case False
  with assms have n: "0 < n" by simp
  let ?x = "of_int n :: rat"
  let ?e = "float64_exponent ?x"
  have "(2::rat) powi ?e \<le> ?x" using n by (intro float64_exponent_le) simp
  also have "?x < 2 ^ 53" using assms(2) by (metis of_int_less_iff of_int_numeral of_int_power)
  also have "(2::rat) ^ 53 = 2 powi 53" by simp
  finally have "(2::rat) powi ?e < 2 powi 53" .
  then have "?e < 53" by (rule power_int_le_imp_less_exp[rotated]) simp_all
  then have e: "0 \<le> 52 - ?e" by simp
  let ?k = "nat (52 - ?e)"
  have u: "(2::rat) powi (?e - 52) = 1 / 2 ^ ?k"
  proof -
    have "(2::rat) powi (?e - 52) = 2 powi (- (52 - ?e))" by simp
    also have "\<dots> = inverse (2 powi (52 - ?e))" by (rule power_int_minus)
    also have "\<dots> = 1 / 2 ^ ?k" using e by (simp add: power_int_def inverse_eq_divide)
    finally show ?thesis .
  qed
  have "?x / (1 / 2 ^ ?k) = of_int (n * 2 ^ ?k)" by simp
  then have "round_half_even (?x / (1 / 2 ^ ?k)) = n * 2 ^ ?k"
    by (simp only: round_half_even_of_int)
  then show ?thesis
    using n by (simp add: float64_round_def Let_def u)
qed

text \<open>
  For a count of 32 bits and a page size of at most 100, the ceiling of the rounded
  quotient is the ceiling of the exact one: a quotient that is no integer lies at least
  \<open>1/100\<close> from the integers, further than rounding moves it.
\<close>

lemma float64_quotient_ceiling:
  fixes t l :: int
  assumes "0 \<le> t" "t < 2 ^ 31" "1 \<le> l" "l \<le> 100"
  shows "\<lceil>float64_div (float64_of_int t) (float64_of_int l)\<rceil>
           = \<lceil>(of_int t :: rat) / of_int l\<rceil>"
proof -
  let ?x = "(of_int t :: rat) / of_int l"
  have ft: "float64_round (of_int t) = of_int t"
    using assms(1,2) by (intro float64_round_int) auto
  have fl: "float64_round (of_int l) = of_int l"
    using assms(3,4) by (intro float64_round_int) auto
  have lpos: "(0::rat) < of_int l" using assms(3) by simp
  show ?thesis
  proof (cases "l dvd t")
    case True
    then obtain k where k: "t = l * k" ..
    with assms(1,3) have k0: "0 \<le> k" by (simp add: zero_le_mult_iff)
    have "k \<le> l * k" using assms(3) k0 by (simp add: mult_le_cancel_right1)
    with k assms(2) have "k < 2 ^ 53" by simp
    moreover have "?x = of_int k" using k lpos by simp
    ultimately have "float64_round ?x = ?x"
      using k0 by (simp add: float64_round_int)
    then show ?thesis by (simp add: float64_div_def float64_of_int_def ft fl)
  next
    case False
    let ?k = "t div l" and ?r = "t mod l"
    have l0: "0 < l" using assms(3) by simp
    have "0 \<le> ?r" using l0 by (rule pos_mod_sign)
    moreover have "?r \<noteq> 0" using False by (simp add: dvd_eq_mod_eq_0)
    ultimately have r1: "0 < ?r" by simp
    have r2: "?r < l" using l0 by (rule pos_mod_bound)
    note r = r1 r2
    have t: "t = ?k * l + ?r" by simp
    have "(of_int t :: rat) = of_int ?k * of_int l + of_int ?r"
      by (metis t of_int_add of_int_mult)
    then have x: "?x = of_int ?k + of_int ?r / of_int l"
      using lpos by (simp add: field_simps)
    have tpos: "0 < t" using False assms(1) by (cases "t = 0") auto
    then have xpos: "0 < ?x" using lpos by simp
    have "?x \<le> of_int t" using lpos tpos assms(3) by (simp add: field_simps mult_le_cancel_left1)
    also have "\<dots> < 2 ^ 31" using assms(2) by (metis of_int_less_iff of_int_numeral of_int_power)
    finally have xb: "?x < 2 ^ 31" .
    have "\<bar>float64_round ?x - ?x\<bar> \<le> ?x / 2 ^ 53" using xpos by (rule float64_round_error)
    also have "\<dots> < 2 ^ 31 / 2 ^ 53" using xb by (simp add: divide_strict_right_mono)
    also have "\<dots> < (1::rat) / 100" by simp
    finally have err: "\<bar>float64_round ?x - ?x\<bar> < 1 / 100" .
    have "(1::rat) \<le> of_int ?r" using r(1) by simp
    then have "(1::rat) / of_int l \<le> of_int ?r / of_int l"
      using lpos by (simp add: divide_right_mono)
    moreover have "(1::rat) / 100 \<le> 1 / of_int l"
      using assms(3,4) by (simp add: field_simps)
    ultimately have lo: "of_int ?k + 1 / 100 \<le> ?x" using x by linarith
    have "of_int ?r \<le> (of_int l :: rat) - 1" using r(2) by (metis of_int_1 of_int_diff of_int_le_iff zle_diff1_eq)
    then have "of_int ?r / (of_int l :: rat) \<le> (of_int l - 1) / of_int l"
      using lpos by (simp add: divide_right_mono)
    also have "\<dots> = 1 - 1 / of_int l" using lpos by (simp add: field_simps)
    also have "\<dots> \<le> 1 - 1 / 100" using \<open>(1::rat) / 100 \<le> 1 / of_int l\<close> by linarith
    finally have hi: "?x \<le> of_int ?k + 1 - 1 / 100" using x by linarith
    have c1: "\<lceil>?x\<rceil> = ?k + 1"
    proof (rule ceiling_unique)
      show "of_int (?k + 1) - 1 < ?x" using lo by simp
      show "?x \<le> of_int (?k + 1)" using hi by simp
    qed
    have c2: "\<lceil>float64_round ?x\<rceil> = ?k + 1"
    proof (rule ceiling_unique)
      have "of_int ?k < float64_round ?x" using lo err by linarith
      then show "of_int (?k + 1) - 1 < float64_round ?x" by simp
      have "float64_round ?x \<le> of_int ?k + 1" using hi err by linarith
      then show "float64_round ?x \<le> of_int (?k + 1)" by simp
    qed
    show ?thesis by (simp add: float64_div_def float64_of_int_def ft fl c1 c2)
  qed
qed

lemma ceil_div_upper:
  fixes t l :: int
  assumes "0 < l"
  shows "t \<le> \<lceil>(of_int t :: rat) / of_int l\<rceil> * l"
proof -
  have "(of_int t :: rat) / of_int l \<le> of_int \<lceil>(of_int t :: rat) / of_int l\<rceil>"
    by (rule le_of_int_ceiling)
  then have "(of_int t :: rat) / of_int l * of_int l
      \<le> of_int \<lceil>(of_int t :: rat) / of_int l\<rceil> * of_int l"
    using assms by (intro mult_right_mono) auto
  then have "(of_int t :: rat) \<le> of_int \<lceil>(of_int t :: rat) / of_int l\<rceil> * of_int l"
    using assms by simp
  then have "(of_int t :: rat) \<le> of_int (\<lceil>(of_int t :: rat) / of_int l\<rceil> * l)"
    by simp
  then show ?thesis by (simp only: of_int_le_iff)
qed

lemma ceil_div_lower:
  fixes t l :: int
  assumes "0 < l"
  shows "(\<lceil>(of_int t :: rat) / of_int l\<rceil> - 1) * l < t"
proof -
  have "of_int \<lceil>(of_int t :: rat) / of_int l\<rceil> - 1 < (of_int t :: rat) / of_int l"
    using ceiling_correct[of "(of_int t :: rat) / of_int l"] by simp
  then have "(of_int \<lceil>(of_int t :: rat) / of_int l\<rceil> - 1) * of_int l
      < (of_int t :: rat) / of_int l * of_int l"
    using assms by (intro mult_strict_right_mono) auto
  then have "(of_int \<lceil>(of_int t :: rat) / of_int l\<rceil> - 1) * of_int l < (of_int t :: rat)"
    using assms by simp
  then have "(of_int ((\<lceil>(of_int t :: rat) / of_int l\<rceil> - 1) * l) :: rat) < of_int t"
    by simp
  then show ?thesis by (simp only: of_int_less_iff)
qed

text \<open>
  For a validated page, a page size from 1 to 100 and a count of 32 bits that is not
  negative, the pagination block has the ceiling of \<open>totalItems / pageSize\<close> as its number
  of pages, and no product of the two overflows.
\<close>

lemma pagination_info_metadata:
  assumes "1 \<le> rPage req" and "rPage req \<le> 1000"
      and "1 \<le> rLimit req" and "rLimit req \<le> 100"
      and "0 \<le> totalItems" and "totalItems < 2 ^ 31"
  shows "pagination_info req totalItems =
           \<lparr>CurrentPage = rPage req, PerPage = rLimit req,
            TotalPages = \<lceil>(of_int totalItems :: rat) / of_int (rLimit req)\<rceil>,
            TotalItemsInfo = totalItems,
            HasNext = (rPage req * rLimit req < totalItems),
            HasPrev = (rPage req > 1)\<rparr>"
proof -
  let ?c = "\<lceil>(of_int totalItems :: rat) / of_int (rLimit req)\<rceil>"
  have "rPage req * rLimit req \<le> 1000 * 100"
    using assms(1-4) by (intro mult_mono) auto
  moreover have "0 \<le> rPage req * rLimit req" using assms(1,3) by simp
  ultimately have w: "int64 (rPage req * rLimit req) = rPage req * rLimit req"
    by (intro int64_small) auto
  have l: "(0::rat) < of_int (rLimit req)" using assms(3) by simp
  have "(of_int totalItems :: rat) / of_int (rLimit req) \<le> of_int totalItems"
    using assms(3,5) l by (simp add: pos_divide_le_eq mult_le_cancel_left1)
  then have up: "?c \<le> totalItems" by (simp only: ceiling_le_iff)
  have "(0::rat) \<le> of_int totalItems / of_int (rLimit req)"
    using assms(5) l by simp
  then have lo: "0 \<le> ?c" by (subst zero_le_ceiling) linarith
  have c64: "int64 ?c = ?c"
  proof (rule int64_small)
    have "- (2 ^ 63) \<le> (0::int)" by simp
    then show "- (2 ^ 63) \<le> ?c" using lo by (rule order_trans)
    have "?c < 2 ^ 31" using up assms(6) by (rule le_less_trans)
    moreover have "(2::int) ^ 31 < 2 ^ 63" by simp
    ultimately show "?c < 2 ^ 63" by (rule less_trans)
  qed
  have c: "\<lceil>float64_div (float64_of_int totalItems) (float64_of_int (rLimit req))\<rceil> = ?c"
    by (rule float64_quotient_ceiling[OF assms(5,6,3,4)])
  show ?thesis by (simp add: pagination_info_def w c c64)
qed

lemma ListWithFilters_total:
  assumes "ListWithFilters st f = (Inr res, st')"
  shows "0 \<le> TotalItems res \<and> TotalItems res \<le> int (length (table st))"
  using assms
  by (auto simp: ListWithFilters_def Scan_def getTotalCount_def ScanCount_def Let_def
      split: if_splits sum.splits prod.splits)

lemma ShouldBindQuery_given:
  assumes "ShouldBindQuery q = Inr bound"
  shows "qPage q = Given (rPage bound) \<and> qLimit q = Given (rLimit bound)"
proof -
  from assms have m: "mapForm q = Inr bound" and tags: "binding_tags_hold bound"
    by (auto simp: ShouldBindQuery_def split: sum.splits if_splits)
  from tags have p: "rPage bound \<noteq> 0" "rLimit bound \<noteq> 0"
    by (auto simp: binding_tags_hold_def)
  from m p show ?thesis
    by (auto simp: mapForm_def form_value_def split: param.splits sum.splits)
qed

text \<open>
  Claim C4. For every successful list request the page and the page size are those of the
  query, validated (page from 1 to 1000, page size from 1 to 100), the total is the one the
  pipeline returned for the filters built from the request, not negative, and the
  pagination block of the response is exactly: the page, the page size, \<open>totalPages\<close> the
  ceiling of \<open>totalItems / pageSize\<close> (the least number of pages of that size that hold
  \<open>totalItems\<close> items), the total, \<open>hasNext\<close> true exactly when
  \<open>page * pageSize < totalItems\<close>, \<open>hasPrev\<close> true exactly when \<open>page > 1\<close>. The table
  has fewer than \<open>2\<^sup>3\<^sup>1\<close> items: the count of a scan is a 32-bit integer.
\<close>

theorem ProductHandler_List_pagination_metadata:
  assumes "ProductHandler_List st q = (StatusOK resp, st')"
      and "int (length (table st)) < 2 ^ 31"
  shows "\<exists>page pageSize bound result.
           qPage q = Given page \<and> qLimit q = Given pageSize
         \<and> ShouldBindQuery q = Inr bound
         \<and> rPage (SetDefaults bound) = page \<and> rLimit (SetDefaults bound) = pageSize
         \<and> 1 \<le> page \<and> page \<le> 1000 \<and> 1 \<le> pageSize \<and> pageSize \<le> 100
         \<and> service_ListWithFilters st (built_filters (SetDefaults bound)) = (Inr result, st')
         \<and> 0 \<le> TotalItems result
         \<and> Pagination resp =
             \<lparr>CurrentPage = page, PerPage = pageSize,
              TotalPages = \<lceil>(of_int (TotalItems result) :: rat) / of_int pageSize\<rceil>,
              TotalItemsInfo = TotalItems result,
              HasNext = (page * pageSize < TotalItems result),
              HasPrev = (page > 1)\<rparr>
         \<and> TotalItems result \<le> TotalPages (Pagination resp) * pageSize
         \<and> (TotalPages (Pagination resp) - 1) * pageSize < TotalItems result"
proof -
  from assms(1) obtain bound where b: "ShouldBindQuery q = Inr bound"
    by (auto simp: ProductHandler_List_def split: sum.splits)
  let ?req = "SetDefaults bound"
  have tags: "binding_tags_hold bound" using b by (rule ShouldBindQuery_tags)
  then have same: "rPage ?req = rPage bound" "rLimit ?req = rLimit bound"
    by (simp_all add: SetDefaults_bound)
  from tags have r: "1 \<le> rPage ?req" "1 \<le> rLimit ?req" "rLimit ?req \<le> 100"
    by (simp_all add: same) (simp_all add: binding_tags_hold_def)
  from assms(1) b have p: "rPage ?req \<le> 1000"
    by (auto simp: ProductHandler_List_def Let_def split: if_splits)
  from assms(1) b obtain res where
    f: "service_ListWithFilters st (built_filters ?req) = (Inr res, st')"
     and resp: "Pagination resp = pagination_info ?req (TotalItems res)"
    by (auto simp: ProductHandler_List_def Let_def split: if_splits sum.splits prod.splits)
  from f have tot: "0 \<le> TotalItems res" "TotalItems res \<le> int (length (table st))"
    using ListWithFilters_total[of st "built_filters ?req" res st']
    by (simp_all add: service_ListWithFilters_def)
  with assms(2) have small: "TotalItems res < 2 ^ 31" by simp
  have block: "Pagination resp =
      \<lparr>CurrentPage = rPage ?req, PerPage = rLimit ?req,
       TotalPages = \<lceil>(of_int (TotalItems res) :: rat) / of_int (rLimit ?req)\<rceil>,
       TotalItemsInfo = TotalItems res,
       HasNext = (rPage ?req * rLimit ?req < TotalItems res),
       HasPrev = (rPage ?req > 1)\<rparr>"
    unfolding resp by (rule pagination_info_metadata[OF r(1) p r(2,3) tot(1) small])
  have l: "0 < rLimit ?req" using r(2) by simp
  have least: "TotalItems res \<le> TotalPages (Pagination resp) * rLimit ?req"
    "(TotalPages (Pagination resp) - 1) * rLimit ?req < TotalItems res"
    using ceil_div_upper[OF l, of "TotalItems res"] ceil_div_lower[OF l, of "TotalItems res"]
    by (simp_all add: block)
  have given: "qPage q = Given (rPage ?req)" "qLimit q = Given (rLimit ?req)"
    using ShouldBindQuery_given[OF b] by (simp_all add: same)
  show ?thesis
    using given b r p f tot(1) block least by blast
qed

lemma ceiling_three_halves: "\<lceil>(3::rat) / 2\<rceil> = 2"
  by (rule ceiling_unique) simp_all

theorem ProductHandler_List_pagination_metadata_witness:
  "\<exists>resp st'.
      ProductHandler_List shop first_page_of_two = (StatusOK resp, st')
    \<and> int (length (table shop)) < 2 ^ 31
    \<and> Pagination resp =
        \<lparr>CurrentPage = 1, PerPage = 2, TotalPages = 2, TotalItemsInfo = 3,
         HasNext = True, HasPrev = False\<rparr>"
proof -
  have small: "int (length (table shop)) < 2 ^ 31" by (simp add: shop_def)
  have b: "ShouldBindQuery first_page_of_two = Inr \<lparr>rPage = 1, rLimit = 2, rName = [],
      rMinPrice = 0, rMaxPrice = 0, rSortBy = [], rSortOrder = [], rFields = []\<rparr>"
    by (simp add: ShouldBindQuery_def mapForm_def form_value_def binding_tags_hold_def
        first_page_of_two_def)
  obtain resp st' where ok: "ProductHandler_List shop first_page_of_two = (StatusOK resp, st')"
    by (simp add: ProductHandler_List_def b SetDefaults_def built_filters_def
        service_ListWithFilters_def ListWithFilters_def Scan_def getTotalCount_def
        ScanCount_def count_conditions_def scan_conditions_def GetOffset_def int32_def
        int64_def paginate_def slice_from_def slice_to_def shop_def matches_def
        sortProducts_def insert_round_def compare_def prodA_def prodB_def prodC_def Let_def)
  from ProductHandler_List_pagination_metadata[OF ok small] obtain page pageSize bound result
    where g: "qPage first_page_of_two = Given page" "qLimit first_page_of_two = Given pageSize"
      and s: "service_ListWithFilters shop (built_filters (SetDefaults bound)) = (Inr result, st')"
      and bb: "ShouldBindQuery first_page_of_two = Inr bound"
      and blk: "Pagination resp =
             \<lparr>CurrentPage = page, PerPage = pageSize,
              TotalPages = \<lceil>(of_int (TotalItems result) :: rat) / of_int pageSize\<rceil>,
              TotalItemsInfo = TotalItems result,
              HasNext = (page * pageSize < TotalItems result),
              HasPrev = (page > 1)\<rparr>"
    by blast
  from g have pv: "page = 1" "pageSize = 2" by (simp_all add: first_page_of_two_def)
  from bb b have bd: "bound = \<lparr>rPage = 1, rLimit = 2, rName = [],
      rMinPrice = 0, rMaxPrice = 0, rSortBy = [], rSortOrder = [], rFields = []\<rparr>" by simp
  from s have tv: "TotalItems result = 3"
    by (auto simp: bd SetDefaults_def built_filters_def
        service_ListWithFilters_def ListWithFilters_def Scan_def getTotalCount_def
        ScanCount_def count_conditions_def scan_conditions_def GetOffset_def int32_def
        int64_def paginate_def slice_from_def slice_to_def shop_def matches_def Let_def
        split: if_splits sum.splits)
  from blk have "Pagination resp =
        \<lparr>CurrentPage = 1, PerPage = 2, TotalPages = 2, TotalItemsInfo = 3,
         HasNext = True, HasPrev = False\<rparr>"
    by (simp add: pv tv ceiling_three_halves)
  with ok small show ?thesis by blast
qed

subsection \<open>Rejections\<close>

text \<open>
  Claim C6. A final page above 1000 is rejected with "page cannot exceed 1000", and both
  prices given, not zero, with the minimum above the maximum with "min_price cannot be
  greater than max_price". The requests of the spec and of the handler's own tests
  (\<^verbatim>\<open>TestProductHandler_List_InvalidPage\<close>, \<^verbatim>\<open>TestProductHandler_List_InvalidPriceRange\<close>)
  are \<^verbatim>\<open>page=1001\<close> alone and \<^verbatim>\<open>min_price=100&max_price=50\<close> alone. In both the
  limit is absent (in the second the page as well); its zero value does not pass
  \<^verbatim>\<open>min=1\<close>, the binding fails, and the answer is "invalid query parameters": the
  handler's own checks are not reached.
\<close>

theorem ProductHandler_List_rejection_reasons_lost:
  "ProductHandler_List shop only_page_1001 = (BadRequest ''invalid query parameters'', shop)
   \<and> ProductHandler_List shop only_inverted_range
        = (BadRequest ''invalid query parameters'', shop)"
  by (simp add: handler_defs only_page_1001_def only_inverted_range_def)

text \<open>
  What the handler does once the binding has passed (page and limit given): a final page
  above 1000 is answered with "page cannot exceed 1000"; with a page of at most 1000, both
  prices not zero and the minimum above the maximum, the answer is "min_price cannot be
  greater than max_price". A sort field that is given and is none of name, price,
  created_at, updated_at fails the binding. Whenever the handler rejects a request, the
  store is as it was: no call was made on it.
\<close>

lemma ProductHandler_List_rejections:
  "(\<forall>bound. ShouldBindQuery q = Inr bound \<and> rPage (SetDefaults bound) > 1000 \<longrightarrow>
       ProductHandler_List st q = (BadRequest ''page cannot exceed 1000'', st))
   \<and> (\<forall>bound. ShouldBindQuery q = Inr bound \<and> rPage (SetDefaults bound) \<le> 1000
         \<and> rMinPrice bound \<noteq> 0 \<and> rMaxPrice bound \<noteq> 0 \<and> rMinPrice bound > rMaxPrice bound \<longrightarrow>
       ProductHandler_List st q =
         (BadRequest ''min_price cannot be greater than max_price'', st))
   \<and> (qSortBy q \<noteq> [] \<and> qSortBy q \<notin> {''name'', ''price'', ''created_at'', ''updated_at''} \<longrightarrow>
       ProductHandler_List st q = (BadRequest ''invalid query parameters'', st))
   \<and> (\<forall>reason. fst (ProductHandler_List st q) = BadRequest reason \<longrightarrow>
       snd (ProductHandler_List st q) = st)"
proof (intro conjI allI impI)
  fix bound
  assume "ShouldBindQuery q = Inr bound \<and> rPage (SetDefaults bound) > 1000"
  then show "ProductHandler_List st q = (BadRequest ''page cannot exceed 1000'', st)"
    by (simp add: ProductHandler_List_def Let_def)
next
  fix bound
  assume a: "ShouldBindQuery q = Inr bound \<and> rPage (SetDefaults bound) \<le> 1000
         \<and> rMinPrice bound \<noteq> 0 \<and> rMaxPrice bound \<noteq> 0 \<and> rMinPrice bound > rMaxPrice bound"
  then have "binding_tags_hold bound"
    by (intro ShouldBindQuery_tags[of q]) simp
  then have "rMinPrice (SetDefaults bound) = rMinPrice bound"
    "rMaxPrice (SetDefaults bound) = rMaxPrice bound" "0 \<le> rMaxPrice bound"
    by (simp_all add: SetDefaults_bound) (simp add: binding_tags_hold_def)
  with a show "ProductHandler_List st q =
         (BadRequest ''min_price cannot be greater than max_price'', st)"
    by (simp add: ProductHandler_List_def Let_def)
next
  assume "qSortBy q \<noteq> [] \<and> qSortBy q \<notin> {''name'', ''price'', ''created_at'', ''updated_at''}"
  then obtain e where "ShouldBindQuery q = Inl e" using bogus_sort_unbound by blast
  then show "ProductHandler_List st q = (BadRequest ''invalid query parameters'', st)"
    by (simp add: ProductHandler_List_def)
next
  fix reason
  assume "fst (ProductHandler_List st q) = BadRequest reason"
  then show "snd (ProductHandler_List st q) = st"
    by (auto simp: ProductHandler_List_def Let_def split: sum.splits if_splits prod.splits)
qed

lemma ProductHandler_List_rejections_examples:
  "ProductHandler_List shop page_1001 = (BadRequest ''page cannot exceed 1000'', shop)
   \<and> ProductHandler_List shop inverted_range =
       (BadRequest ''min_price cannot be greater than max_price'', shop)
   \<and> ProductHandler_List shop bogus_sort = (BadRequest ''invalid query parameters'', shop)
   \<and> snd (ProductHandler_List shop page_1001_inverted_range) = shop"
proof -
  have b1: "ShouldBindQuery page_1001 = Inr \<lparr>rPage = 1001, rLimit = 20, rName = [],
      rMinPrice = 0, rMaxPrice = 0, rSortBy = [], rSortOrder = [], rFields = []\<rparr>"
    by (simp add: ShouldBindQuery_def mapForm_def form_value_def binding_tags_hold_def
        page_1001_def)
  have b2: "ShouldBindQuery inverted_range = Inr \<lparr>rPage = 1, rLimit = 20, rName = [],
      rMinPrice = 100, rMaxPrice = 50, rSortBy = [], rSortOrder = [], rFields = []\<rparr>"
    by (simp add: ShouldBindQuery_def mapForm_def form_value_def binding_tags_hold_def
        inverted_range_def)
  have r4: "fst (ProductHandler_List shop page_1001_inverted_range)
      = BadRequest ''page cannot exceed 1000''"
    by (simp add: handler_defs page_1001_inverted_range_def Let_def)
  show ?thesis
    using ProductHandler_List_rejections[of page_1001 shop]
      ProductHandler_List_rejections[of inverted_range shop]
      ProductHandler_List_rejections[of bogus_sort shop]
      ProductHandler_List_rejections[of page_1001_inverted_range shop]
      b1 b2 r4
    by (simp add: SetDefaults_def bogus_sort_def Let_def)
qed

subsection \<open>Defaults\<close>

text \<open>
  Claim C7, as stated: a page parameter that fails to parse is defaulted to 1 and the
  request is not rejected. The handler answers a failed binding with 400 "invalid query
  parameters", and a page whose text is no number fails the binding.
\<close>

theorem ProductHandler_List_unparsable_page_rejected:
  "qPage unparsable_page = Malformed
   \<and> ProductHandler_List shop unparsable_page = (BadRequest ''invalid query parameters'', shop)"
  by (simp add: handler_defs unparsable_page_def)

text \<open>
  Claim C7, amended. A page parameter that does not parse as an integer is rejected by the
  binding step with "invalid query parameters". On the request structure,
  \<^verbatim>\<open>SetDefaults\<close> replaces a page of zero or less by 1, a limit of zero or less by
  20, an empty sort field by created_at and an empty sort direction by desc, and changes
  nothing else.
\<close>

theorem SetDefaults_and_unparsable_page:
  "(qPage q = Malformed \<longrightarrow>
      ProductHandler_List st q = (BadRequest ''invalid query parameters'', st))
   \<and> rPage (SetDefaults r) = (if rPage r \<le> 0 then 1 else rPage r)
   \<and> rLimit (SetDefaults r) = (if rLimit r \<le> 0 then 20 else rLimit r)
   \<and> rSortBy (SetDefaults r) = (if rSortBy r = [] then ''created_at'' else rSortBy r)
   \<and> rSortOrder (SetDefaults r) = (if rSortOrder r = [] then ''desc'' else rSortOrder r)
   \<and> rName (SetDefaults r) = rName r \<and> rMinPrice (SetDefaults r) = rMinPrice r
   \<and> rMaxPrice (SetDefaults r) = rMaxPrice r \<and> rFields (SetDefaults r) = rFields r"
  by (simp add: handler_defs Let_def)

theorem SetDefaults_and_unparsable_page_witness:
  "qPage unparsable_page = Malformed
   \<and> ProductHandler_List shop unparsable_page = (BadRequest ''invalid query parameters'', shop)"
  using SetDefaults_and_unparsable_page[of unparsable_page shop]
  by (simp add: unparsable_page_def)

text \<open>
  A parameter that is absent leaves the zero value, which \<^verbatim>\<open>min=1\<close> does not let
  pass: the request without parameters is answered as a failed binding, where the handler's
  tests and the API documentation expect the defaults.
\<close>

lemma ProductHandler_List_no_params:
  "ProductHandler_List shop no_params = (BadRequest ''invalid query parameters'', shop)"
  by (simp add: handler_defs no_params_def)

subsection \<open>Price bounds of zero\<close>

lemma ShouldBindQuery_zero_min:
  "qMinPrice q = Given 0 \<Longrightarrow> ShouldBindQuery q = ShouldBindQuery (q\<lparr>qMinPrice := Absent\<rparr>)"
  by (simp add: ShouldBindQuery_def mapForm_def form_value_def split: param.splits)

lemma ShouldBindQuery_zero_max:
  "qMaxPrice q = Given 0 \<Longrightarrow> ShouldBindQuery q = ShouldBindQuery (q\<lparr>qMaxPrice := Absent\<rparr>)"
  by (simp add: ShouldBindQuery_def mapForm_def form_value_def split: param.splits)

text \<open>
  Claim C9. A request that gives \<^verbatim>\<open>min_price=0\<close> or \<^verbatim>\<open>max_price=0\<close> is
  handled exactly as the request without that parameter; filters whose minimum (maximum)
  price is zero put no lower (upper) price bound into the filter of the scan nor into that
  of the count; and a zero is left out of the \<^verbatim>\<open>filters_applied\<close> object. So a request
  cannot ask for a bound of zero by giving zero.
\<close>

theorem zero_price_is_no_bound:
  "(qMinPrice q = Given 0 \<longrightarrow>
      ProductHandler_List st q = ProductHandler_List st (q\<lparr>qMinPrice := Absent\<rparr>))
   \<and> (qMaxPrice q = Given 0 \<longrightarrow>
      ProductHandler_List st q = ProductHandler_List st (q\<lparr>qMaxPrice := Absent\<rparr>))
   \<and> (fMinPrice f = 0 \<longrightarrow>
      (\<forall>v. PriceGE v \<notin> set (scan_conditions f) \<and> PriceGE v \<notin> set (count_conditions f)))
   \<and> (fMaxPrice f = 0 \<longrightarrow>
      (\<forall>v. PriceLE v \<notin> set (scan_conditions f) \<and> PriceLE v \<notin> set (count_conditions f)))
   \<and> (iMinPrice i = 0 \<longrightarrow> ''min_price'' \<notin> fst ` set (FilterInfo_json i))
   \<and> (iMaxPrice i = 0 \<longrightarrow> ''max_price'' \<notin> fst ` set (FilterInfo_json i))"
proof (intro conjI impI)
  assume "qMinPrice q = Given 0"
  then show "ProductHandler_List st q = ProductHandler_List st (q\<lparr>qMinPrice := Absent\<rparr>)"
    by (simp add: ProductHandler_List_def ShouldBindQuery_zero_min)
next
  assume "qMaxPrice q = Given 0"
  then show "ProductHandler_List st q = ProductHandler_List st (q\<lparr>qMaxPrice := Absent\<rparr>)"
    by (simp add: ProductHandler_List_def ShouldBindQuery_zero_max)
next
  assume "fMinPrice f = 0"
  then show "\<forall>v. PriceGE v \<notin> set (scan_conditions f) \<and> PriceGE v \<notin> set (count_conditions f)"
    by (simp add: scan_conditions_def count_conditions_def Let_def)
next
  assume "fMaxPrice f = 0"
  then show "\<forall>v. PriceLE v \<notin> set (scan_conditions f) \<and> PriceLE v \<notin> set (count_conditions f)"
    by (simp add: scan_conditions_def count_conditions_def Let_def)
next
  assume "iMinPrice i = 0"
  then show "''min_price'' \<notin> fst ` set (FilterInfo_json i)"
    by (auto simp: FilterInfo_json_def)
next
  assume "iMaxPrice i = 0"
  then show "''max_price'' \<notin> fst ` set (FilterInfo_json i)"
    by (auto simp: FilterInfo_json_def)
qed

theorem zero_price_is_no_bound_witness:
  "ProductHandler_List shop zero_prices
     = ProductHandler_List shop (zero_prices\<lparr>qMinPrice := Absent\<rparr>)
   \<and> ProductHandler_List shop zero_prices
     = ProductHandler_List shop (zero_prices\<lparr>qMaxPrice := Absent\<rparr>)
   \<and> (\<forall>v. PriceGE v \<notin> set (scan_conditions first_page))
   \<and> (\<forall>v. PriceLE v \<notin> set (count_conditions first_page))
   \<and> ''min_price'' \<notin> fst ` set (FilterInfo_json \<lparr>iName = ''Pro'', iMinPrice = 0, iMaxPrice = 0\<rparr>)
   \<and> ''max_price'' \<notin> fst ` set (FilterInfo_json \<lparr>iName = ''Pro'', iMinPrice = 0, iMaxPrice = 0\<rparr>)"
proof -
  have q: "qMinPrice zero_prices = Given 0" "qMaxPrice zero_prices = Given 0"
    "fMinPrice first_page = 0" "fMaxPrice first_page = 0"
    "iMinPrice \<lparr>iName = ''Pro'', iMinPrice = 0, iMaxPrice = 0\<rparr> = 0"
    "iMaxPrice \<lparr>iName = ''Pro'', iMinPrice = 0, iMaxPrice = 0\<rparr> = 0"
    by (simp_all add: zero_prices_def first_page_def)
  show ?thesis
    using q zero_price_is_no_bound[of zero_prices shop first_page
        "\<lparr>iName = ''Pro'', iMinPrice = 0, iMaxPrice = 0\<rparr>"]
    by blast
qed

end
